theory Spec2Isabelle
  imports Main
begin

section \<open>Request values and strings\<close>

text \<open>
  The request body of \<open>POST /api/add\<close> is parsed JSON (or a form), so the \<open>key\<close> field
  may hold any JavaScript value. The handler looks at two things only: whether the
  value is truthy (\<open>if (key)\<close>) and whether it is a string (\<open>typeof key\<close>). A number is
  kept by its integer value (only being zero matters); arrays and objects are \<open>JObject\<close>.
\<close>

datatype jsval = JUndefined | JNull | JBool bool | JNum int | JStr string | JObject

fun truthy :: "jsval \<Rightarrow> bool" where
  "truthy JUndefined = False"
| "truthy JNull = False"
| "truthy (JBool b) = b"
| "truthy (JNum n) = (n \<noteq> 0)"
| "truthy (JStr s) = (s \<noteq> [])"
| "truthy JObject = True"

text \<open>
  Strings are \<open>string\<close>; identifiers are ASCII. \<open>String.prototype.toLowerCase\<close> is
  modelled on the letters \<open>A\<close> to \<open>Z\<close> (codes 65 to 90) and leaves every other
  character as it is. JavaScript lowercases letters beyond ASCII as well (the Kelvin
  sign becomes \<open>k\<close>); such path ids are outside the model.
\<close>

definition toLowerCaseChar :: "char \<Rightarrow> char" where
  "toLowerCaseChar c =
     (let n = (of_char c :: nat) in if 65 \<le> n \<and> n \<le> 90 then char_of (n + 32) else c)"

definition toLowerCase :: "string \<Rightarrow> string" where
  "toLowerCase s = map toLowerCaseChar s"

text \<open>\<open>.replace(/=/g, '')\<close>: every \<open>=\<close> is removed.\<close>

definition stripPadding :: "string \<Rightarrow> string" where
  "stripPadding s = filter (\<lambda>c. c \<noteq> CHR ''='') s"

text \<open>
  The character class \<open>[A-Z2-7]\<close> under the \<open>i\<close> flag: the letters of either case and
  the digits \<open>2\<close> to \<open>7\<close>. \<open>/^[A-Z2-7]+$/i.test(key)\<close> asks for one character at least
  and for every character in the class.
\<close>

definition isBase32Char :: "char \<Rightarrow> bool" where
  "isBase32Char c =
     (let n = (of_char c :: nat)
      in (65 \<le> n \<and> n \<le> 90) \<or> (97 \<le> n \<and> n \<le> 122) \<or> (50 \<le> n \<and> n \<le> 55))"

definition matchesBase32 :: "string \<Rightarrow> bool" where
  "matchesBase32 s = (s \<noteq> [] \<and> list_all isBase32Char s)"

text \<open>The decimal digits of a number, as string concatenation with a number writes them.\<close>

fun decimal :: "nat \<Rightarrow> string" where
  "decimal n =
     (if n < 10 then [char_of (48 + n)]
      else decimal (n div 10) @ [char_of (48 + n mod 10)])"

section \<open>Configuration\<close>

text \<open>
  \<open>maxBase32Length\<close> starts at 7. Every numeric command-line argument is checked:
  a value in 1..20 replaces it, any other value ends the process
  (\<open>process.exit(1)\<close>, here \<open>None\<close>).
\<close>

definition lengthArg :: "int \<Rightarrow> nat option" where
  "lengthArg len = (if len > 0 \<and> len \<le> 20 then Some (nat len) else None)"

fun parseLengthArgs :: "nat \<Rightarrow> int list \<Rightarrow> nat option" where
  "parseLengthArgs cur [] = Some cur"
| "parseLengthArgs cur (a # as) =
     (case lengthArg a of None \<Rightarrow> None | Some len \<Rightarrow> parseLengthArgs len as)"

definition configuredLength :: "int list \<Rightarrow> nat option" where
  "configuredLength args = parseLengthArgs 7 args"

text \<open>
  The environment of the handlers: the configured length and the three library
  functions the code calls but does not define (\<open>base32.encode\<close> of the npm
  dependency, the hexadecimal MD5 digest of \<open>crypto\<close>, and whether \<open>new URL(url)\<close>
  returns rather than throws). They are parameters of the model.
\<close>

record env =
  maxBase32Length :: nat
  base32_encode :: "string \<Rightarrow> string"
  md5_hex :: "string \<Rightarrow> string"
  url_parses :: "string \<Rightarrow> bool"

text \<open>
  \<open>Date.now().toString()\<close> and \<open>Math.random().toString()\<close> read the outside world once
  per attempt: the entropy of a request gives both strings for each attempt index.
\<close>

type_synonym entropy = "nat \<Rightarrow> string \<times> string"

section \<open>The redirects table\<close>

text \<open>
  A row of \<open>redirects\<close>. \<open>visits\<close> has \<open>DEFAULT 0\<close>, \<open>created\<close> has
  \<open>DEFAULT CURRENT_TIMESTAMP\<close>, \<open>last_visit\<close> is nullable. The table is the list of its
  rows in insertion order (the order of a scan without an index); timestamps are
  natural numbers read from the clock, and \<open>visits\<close> is counted as a natural number
  (the limit of the 64-bit column is out of reach).
\<close>

record redirect =
  row_id :: string
  row_url :: string
  created :: nat
  visits :: nat
  last_visit :: "nat option"

type_synonym db = "redirect list"

text \<open>\<open>db.get('SELECT ... WHERE id = ?')\<close>: the first row with that id, if any.\<close>

definition selectById :: "string \<Rightarrow> db \<Rightarrow> redirect option" where
  "selectById i d = find (\<lambda>r. row_id r = i) d"

text \<open>\<open>db.get('SELECT * FROM redirects WHERE url = ?')\<close>: the first row with that url.\<close>

definition selectByUrl :: "string \<Rightarrow> db \<Rightarrow> redirect option" where
  "selectByUrl u d = find (\<lambda>r. row_url r = u) d"

text \<open>
  \<open>INSERT INTO redirects (id, url) VALUES (?, ?)\<close>: \<open>id\<close> is the primary key, so the
  insert is rejected (\<open>None\<close>) when a row with that id exists; otherwise the new row
  takes the column defaults.
\<close>

definition insertRow :: "string \<Rightarrow> string \<Rightarrow> nat \<Rightarrow> db \<Rightarrow> db option" where
  "insertRow i u now d =
     (case selectById i d of
        Some existing \<Rightarrow> None
      | None \<Rightarrow> Some (d @ [\<lparr>row_id = i, row_url = u, created = now,
                             visits = 0, last_visit = None\<rparr>]))"

text \<open>\<open>UPDATE redirects SET visits = visits + 1, last_visit = CURRENT_TIMESTAMP WHERE id = ?\<close>\<close>

definition updateVisit :: "string \<Rightarrow> nat \<Rightarrow> db \<Rightarrow> db" where
  "updateVisit i now d =
     map (\<lambda>r. if row_id r = i then r\<lparr>visits := visits r + 1, last_visit := Some now\<rparr> else r) d"

text \<open>\<open>DELETE FROM redirects WHERE id = ?\<close>\<close>

definition deleteRow :: "string \<Rightarrow> db \<Rightarrow> db" where
  "deleteRow i d = filter (\<lambda>r. row_id r \<noteq> i) d"

section \<open>Responses\<close>

text \<open>
  The error messages of the handlers, and the responses: a failure carries the HTTP
  status and the message; \<open>Created\<close> carries \<open>base32_id\<close> and \<open>original_url\<close>;
  \<open>Exists\<close> carries the row that \<open>/api/check\<close> reports; \<open>Deleted\<close> carries
  \<open>deleted_id\<close> and \<open>deleted_url\<close>.
\<close>

datatype message =
    UrlRequired
  | UrlParameterRequired
  | IdParameterRequired
  | InvalidUrlFormat
  | KeyLengthInvalid
  | KeyNotBase32
  | KeyExists
  | UnableToGenerateId
  | DatabaseError
  | RedirectNotFound

datatype response =
    Failure nat message
  | Created string string
  | Redirect string
  | Exists redirect
  | NotExists
  | Deleted string string

section \<open>generateBase32Id\<close>

definition maxAttempts :: nat where
  "maxAttempts = 10"

text \<open>The candidate of one attempt: hash, encode, lowercase, drop \<open>=\<close>, truncate.\<close>

definition candidateId :: "env \<Rightarrow> entropy \<Rightarrow> string \<Rightarrow> nat \<Rightarrow> string" where
  "candidateId e ent u attempts =
     (let timestamp = fst (ent attempts);
          random = snd (ent attempts);
          hash = md5_hex e (u @ timestamp @ random @ decimal attempts)
      in take (maxBase32Length e) (stripPadding (toLowerCase (base32_encode e hash))))"

datatype exn = MaxAttemptsError

text \<open>
  The \<open>while (attempts < maxAttempts)\<close> loop, from a given value of \<open>attempts\<close>. The
  result is the value of \<open>attempts\<close> when the loop is left, with the returned id or the
  thrown error.
\<close>

function generateLoop :: "env \<Rightarrow> entropy \<Rightarrow> string \<Rightarrow> db \<Rightarrow> nat \<Rightarrow> nat \<times> (exn + string)" where
  "generateLoop e ent u d attempts =
     (if attempts < maxAttempts then
        (case selectById (candidateId e ent u attempts) d of
           None \<Rightarrow> (attempts, Inr (candidateId e ent u attempts))
         | Some existing \<Rightarrow> generateLoop e ent u d (attempts + 1))
      else (attempts, Inl MaxAttemptsError))"
  by pat_completeness auto
termination
  by (relation "measure (\<lambda>(e, ent, u, d, attempts). maxAttempts - attempts)") auto

definition generateBase32Id :: "env \<Rightarrow> entropy \<Rightarrow> string \<Rightarrow> db \<Rightarrow> exn + string" where
  "generateBase32Id e ent u d = snd (generateLoop e ent u d 0)"

section \<open>The handlers\<close>

text \<open>
  The body of \<open>POST /api/add\<close>. The \<open>url\<close> field is modelled for string values
  (\<open>None\<close>: the field is missing); \<open>key\<close> is any value.
\<close>

record add_body =
  body_url :: "string option"
  body_key :: jsval

text \<open>
  Everything \<open>/api/add\<close> does before the \<open>INSERT\<close>: the url checks, then either the
  custom key checks with the existence query, or \<open>generateBase32Id\<close>. The result is the
  response sent early, or the url and the id to insert.
\<close>

definition chooseId :: "env \<Rightarrow> entropy \<Rightarrow> add_body \<Rightarrow> db \<Rightarrow> response + (string \<times> string)" where
  "chooseId e ent body d =
     (case body_url body of
        None \<Rightarrow> Inl (Failure 400 UrlRequired)
      | Some u \<Rightarrow>
          if u = [] then Inl (Failure 400 UrlRequired)
          else if \<not> url_parses e u then Inl (Failure 400 InvalidUrlFormat)
          else if truthy (body_key body) then
            (case body_key body of
               JStr k \<Rightarrow>
                 if length k = 0 \<or> length k > maxBase32Length e
                   then Inl (Failure 400 KeyLengthInvalid)
                 else if \<not> matchesBase32 k then Inl (Failure 400 KeyNotBase32)
                 else (case selectById (toLowerCase k) d of
                         Some existing \<Rightarrow> Inl (Failure 409 KeyExists)
                       | None \<Rightarrow> Inr (toLowerCase k, u))
             | _ \<Rightarrow> Inl (Failure 400 KeyLengthInvalid))
          else
            (case generateBase32Id e ent u d of
               Inl err \<Rightarrow> Inl (Failure 500 UnableToGenerateId)
             | Inr i \<Rightarrow> Inr (i, u)))"

text \<open>
  The \<open>INSERT\<close> and its callback: an error of the insert is answered with status 500
  and \<open>Database error\<close>; there is no other branch for it.
\<close>

definition insertAndReply :: "string \<Rightarrow> string \<Rightarrow> nat \<Rightarrow> db \<Rightarrow> response \<times> db" where
  "insertAndReply i u now d =
     (case insertRow i u now d of
        None \<Rightarrow> (Failure 500 DatabaseError, d)
      | Some d' \<Rightarrow> (Created i u, d'))"

text \<open>
  The handler run without another request in between: the table the checks saw is the
  table the \<open>INSERT\<close> runs on.
\<close>

definition add :: "env \<Rightarrow> entropy \<Rightarrow> add_body \<Rightarrow> nat \<Rightarrow> db \<Rightarrow> response \<times> db" where
  "add e ent body now d =
     (case chooseId e ent body d of
        Inl resp \<Rightarrow> (resp, d)
      | Inr (i, u) \<Rightarrow> insertAndReply i u now d)"

text \<open>
  The handler when other requests are served while it waits for the store: its checks
  saw the table \<open>d\<close>, its \<open>INSERT\<close> runs on the table \<open>d'\<close>.
\<close>

definition addInterleaved ::
    "env \<Rightarrow> entropy \<Rightarrow> add_body \<Rightarrow> nat \<Rightarrow> db \<Rightarrow> db \<Rightarrow> response \<times> db" where
  "addInterleaved e ent body now d d' =
     (case chooseId e ent body d of
        Inl resp \<Rightarrow> (resp, d')
      | Inr (i, u) \<Rightarrow> insertAndReply i u now d')"

text \<open>\<open>GET /:base32id\<close>\<close>

definition resolve :: "string \<Rightarrow> nat \<Rightarrow> db \<Rightarrow> response \<times> db" where
  "resolve base32id now d =
     (let i = toLowerCase base32id
      in case selectById i d of
           Some row \<Rightarrow> (Redirect (row_url row), updateVisit i now d)
         | None \<Rightarrow> (Failure 404 RedirectNotFound, d))"

text \<open>\<open>GET /api/check\<close>\<close>

definition check :: "env \<Rightarrow> string option \<Rightarrow> db \<Rightarrow> response" where
  "check e q d =
     (case q of
        None \<Rightarrow> Failure 400 UrlParameterRequired
      | Some u \<Rightarrow>
          if u = [] then Failure 400 UrlParameterRequired
          else if \<not> url_parses e u then Failure 400 InvalidUrlFormat
          else (case selectByUrl u d of
                  Some row \<Rightarrow> Exists row
                | None \<Rightarrow> NotExists))"

text \<open>\<open>DELETE /api/delete/:id\<close>\<close>

definition delete :: "string \<Rightarrow> db \<Rightarrow> response \<times> db" where
  "delete i d =
     (if i = [] then (Failure 400 IdParameterRequired, d)
      else (case selectById (toLowerCase i) d of
              None \<Rightarrow> (Failure 404 RedirectNotFound, d)
            | Some row \<Rightarrow> (Deleted (row_id row) (row_url row), deleteRow (toLowerCase i) d)))"

text \<open>
  One request against the table. The routes left out (\<open>/human/browse\<close> and the QR
  routes) only run \<open>SELECT\<close> statements.
\<close>

datatype request =
    Add entropy add_body nat
  | Resolve string nat
  | Check "string option"
  | Delete string

fun handle :: "env \<Rightarrow> request \<Rightarrow> db \<Rightarrow> response \<times> db" where
  "handle e (Add ent body now) d = add e ent body now d"
| "handle e (Resolve base32id now) d = resolve base32id now d"
| "handle e (Check q) d = (check e q d, d)"
| "handle e (Delete i) d = delete i d"

section \<open>The encoder of the base32 package\<close>







section \<open>A concrete environment\<close>

text \<open>
  Stand-ins for the three library functions, to run the model on concrete inputs: a
  digest of 8 characters that begins with the reversed input, an encoder that keeps
  the characters of the class, maps the others to \<open>q\<close> and pads with \<open>=\<close>, and a url
  check that asks for a scheme \<open>http\<close>.
\<close>

definition sampleDigest :: "string \<Rightarrow> string" where
  "sampleDigest s = take 8 (rev s @ replicate 8 (CHR ''0''))"

definition sampleEncode :: "string \<Rightarrow> string" where
  "sampleEncode h = map (\<lambda>c. if isBase32Char c then c else CHR ''q'') h @ ''====''"

definition sampleParses :: "string \<Rightarrow> bool" where
  "sampleParses u = (take 4 u = ''http'')"

definition sampleEnv :: "nat \<Rightarrow> env" where
  "sampleEnv len =
     \<lparr>maxBase32Length = len, base32_encode = sampleEncode,
      md5_hex = sampleDigest, url_parses = sampleParses\<rparr>"

definition sampleEntropy :: entropy where
  "sampleEntropy attempts = (''1762'', ''0.'' @ decimal (7 * attempts + 3))"

definition sampleRow :: "string \<Rightarrow> string \<Rightarrow> redirect" where
  "sampleRow i u = \<lparr>row_id = i, row_url = u, created = 0, visits = 0, last_visit = None\<rparr>"

text \<open>A table that holds every one-character id the stand-in encoder can produce.\<close>

definition fullTable :: db where
  "fullTable = map (\<lambda>i. sampleRow i ''http://b.io'')
     [''q'', ''2'', ''3'', ''4'', ''5'', ''6'', ''7'']"



section \<open>What the claims take from the library functions\<close>

text \<open>
  Modelled from the spec: the Identifier Allocator (4.2) truncates an encoded digest to
  \<open>max_id_length\<close> characters, so the encoded digest (the work of \<open>crypto\<close> and
  \<open>base32\<close>, not among the sources) has that many characters besides the padding. An
  MD5 digest in hexadecimal has 32 characters, and a base32 encoding of 32 bytes has 52.
\<close>

definition encodedDigestCovers :: "env \<Rightarrow> bool" where
  "encodedDigestCovers e =
     (\<forall>s. maxBase32Length e \<le> length (stripPadding (base32_encode e (md5_hex e s))))"

section \<open>Facts about the table and the allocation loop\<close>

declare generateLoop.simps [simp del]

declare decimal.simps [simp del]

lemma selectById_Some: "selectById i d = Some r \<Longrightarrow> row_id r = i \<and> r \<in> set d"
  unfolding selectById_def by (induction d) (auto split: if_splits)

lemma selectById_None: "selectById i d = None \<longleftrightarrow> i \<notin> row_id ` set d"
  unfolding selectById_def by (induction d) auto

lemma selectById_append:
  "selectById i (d @ d2) = (case selectById i d of Some r \<Rightarrow> Some r | None \<Rightarrow> selectById i d2)"
  unfolding selectById_def by (induction d) auto

lemma generateLoop_result:
  "generateLoop e ent u d a = (n, Inr i) \<Longrightarrow>
     a \<le> n \<and> n < maxAttempts \<and> i = candidateId e ent u n \<and> selectById i d = None"
proof (induction e ent u d a rule: generateLoop.induct)
  case (1 e ent u d attempts)
  show ?case
  proof (cases "attempts < maxAttempts")
    case False
    with "1.prems" show ?thesis by (simp add: generateLoop.simps [of e ent u d attempts])
  next
    case True
    show ?thesis
    proof (cases "selectById (candidateId e ent u attempts) d")
      case None
      with True "1.prems" show ?thesis
        by (auto simp add: generateLoop.simps [of e ent u d attempts])
    next
      case (Some r)
      with True "1.prems" have "generateLoop e ent u d (attempts + 1) = (n, Inr i)"
        by (simp add: generateLoop.simps [of e ent u d attempts])
      then have "attempts + 1 \<le> n \<and> n < maxAttempts \<and> i = candidateId e ent u n \<and> selectById i d = None"
        by (rule "1.IH" [OF True Some])
      then show ?thesis by auto
    qed
  qed
qed

lemma generateLoop_error:
  "generateLoop e ent u d a = (n, Inl x) \<Longrightarrow> a \<le> maxAttempts \<Longrightarrow> n = maxAttempts"
proof (induction e ent u d a rule: generateLoop.induct)
  case (1 e ent u d attempts)
  show ?case
  proof (cases "attempts < maxAttempts")
    case False
    with "1.prems" show ?thesis by (simp add: generateLoop.simps [of e ent u d attempts])
  next
    case True
    show ?thesis
    proof (cases "selectById (candidateId e ent u attempts) d")
      case None
      with True "1.prems" show ?thesis
        by (auto simp add: generateLoop.simps [of e ent u d attempts])
    next
      case (Some r)
      with True "1.prems" have "generateLoop e ent u d (attempts + 1) = (n, Inl x)"
        by (simp add: generateLoop.simps [of e ent u d attempts])
      moreover from True have "attempts + 1 \<le> maxAttempts" by simp
      ultimately show ?thesis by (rule "1.IH" [OF True Some])
    qed
  qed
qed

lemma generateLoop_exhausted:
  "\<forall>k. a \<le> k \<and> k < maxAttempts \<longrightarrow> selectById (candidateId e ent u k) d \<noteq> None \<Longrightarrow>
   a \<le> maxAttempts \<Longrightarrow>
   generateLoop e ent u d a = (maxAttempts, Inl MaxAttemptsError)"
proof (induction e ent u d a rule: generateLoop.induct)
  case (1 e ent u d attempts)
  show ?case
  proof (cases "attempts < maxAttempts")
    case False
    then show ?thesis by (subst generateLoop.simps) (use "1.prems" in simp)
  next
    case True
    with "1.prems" obtain r where Some: "selectById (candidateId e ent u attempts) d = Some r"
      by fastforce
    from "1.prems" True have "generateLoop e ent u d (attempts + 1) = (maxAttempts, Inl MaxAttemptsError)"
      by (intro "1.IH" [OF True Some]) auto
    with True Some show ?thesis by (simp add: generateLoop.simps [of e ent u d attempts])
  qed
qed

lemma selectByUrl_append:
  "selectByUrl u (d @ d2) = (case selectByUrl u d of Some r \<Rightarrow> Some r | None \<Rightarrow> selectByUrl u d2)"
  unfolding selectByUrl_def by (induction d) auto

lemma selectById_updateVisit:
  "selectById i (updateVisit j now d) =
     map_option (\<lambda>r. if row_id r = j then r\<lparr>visits := visits r + 1, last_visit := Some now\<rparr> else r)
       (selectById i d)"
  unfolding selectById_def updateVisit_def by (induction d) auto

lemma selectById_deleteRow:
  "selectById i (deleteRow j d) = (if i = j then None else selectById i d)"
  unfolding selectById_def deleteRow_def by (induction d) auto

lemma chooseId_Inl:
  "chooseId e ent body d = Inl resp \<Longrightarrow> \<exists>st m. resp = Failure st m"
  by (auto simp add: chooseId_def split: option.splits if_splits jsval.splits sum.splits)

lemma add_Created:
  "add e ent body now d = (Created i u, d') \<Longrightarrow>
     chooseId e ent body d = Inr (i, u) \<and> selectById i d = None \<and>
     d' = d @ [\<lparr>row_id = i, row_url = u, created = now, visits = 0, last_visit = None\<rparr>]"
  by (auto simp add: add_def insertAndReply_def insertRow_def
           split: sum.splits option.splits dest: chooseId_Inl)

lemma add_table:
  "add e ent body now d = (resp, d') \<Longrightarrow>
     d' = d \<or> (\<exists>i u. resp = Created i u \<and> selectById i d = None \<and>
       d' = d @ [\<lparr>row_id = i, row_url = u, created = now, visits = 0, last_visit = None\<rparr>])"
  by (auto simp add: add_def insertAndReply_def insertRow_def
           split: sum.splits option.splits dest: chooseId_Inl)

lemma chooseId_url:
  "chooseId e ent body d = Inr (i, u) \<Longrightarrow> body_url body = Some u \<and> u \<noteq> [] \<and> url_parses e u"
  by (auto simp add: chooseId_def split: option.splits if_splits jsval.splits sum.splits)

lemma handle_visits_mono:
  assumes "handle e rq d = (resp, d2)" and "selectById j d = Some r1" and "selectById j d2 = Some r2"
  shows "visits r1 \<le> visits r2"
proof (cases rq)
  case (Add ent body now)
  with assms(1) have "add e ent body now d = (resp, d2)" by simp
  from add_table [OF this] assms(2,3) show ?thesis
    by (auto simp add: selectById_append)
next
  case (Resolve raw now)
  with assms show ?thesis
    by (auto simp add: resolve_def Let_def selectById_updateVisit split: option.splits if_splits)
next
  case (Check q)
  with assms show ?thesis by auto
next
  case (Delete i)
  with assms show ?thesis
    by (auto simp add: delete_def selectById_deleteRow split: option.splits if_splits)
qed

lemma selectById_ids:
  "map row_id d1 = map row_id d2 \<Longrightarrow> (selectById i d1 = None) = (selectById i d2 = None)"
proof -
  assume "map row_id d1 = map row_id d2"
  then have "set (map row_id d1) = set (map row_id d2)" by simp
  then show ?thesis by (simp add: selectById_None)
qed

lemma generateLoop_ids:
  "map row_id d1 = map row_id d2 \<Longrightarrow> generateLoop e ent u d1 a = generateLoop e ent u d2 a"
proof (induction e ent u d1 a rule: generateLoop.induct)
  case (1 e ent u d attempts)
  note ids = selectById_ids [OF "1.prems", of "candidateId e ent u attempts"]
  show ?case
  proof (cases "attempts < maxAttempts")
    case False
    then show ?thesis
      by (simp add: generateLoop.simps [of e ent u d attempts] generateLoop.simps [of e ent u d2 attempts])
  next
    case True
    show ?thesis
    proof (cases "selectById (candidateId e ent u attempts) d")
      case None
      with ids have "selectById (candidateId e ent u attempts) d2 = None" by simp
      with None True show ?thesis
        by (simp add: generateLoop.simps [of e ent u d attempts] generateLoop.simps [of e ent u d2 attempts])
    next
      case (Some r)
      with ids obtain r2 where r2: "selectById (candidateId e ent u attempts) d2 = Some r2" by auto
      from "1.IH" [OF True Some "1.prems"] Some r2 True show ?thesis
        by (simp add: generateLoop.simps [of e ent u d attempts] generateLoop.simps [of e ent u d2 attempts])
    qed
  qed
qed

lemma chooseId_ids:
  assumes "map row_id d1 = map row_id d2"
  shows "chooseId e ent body d1 = chooseId e ent body d2"
proof -
  have g: "generateBase32Id e ent u d1 = generateBase32Id e ent u d2" for u
    by (simp add: generateBase32Id_def generateLoop_ids [OF assms])
  have s: "(case selectById i d1 of None \<Rightarrow> a | Some existing \<Rightarrow> b)
         = (case selectById i d2 of None \<Rightarrow> a | Some existing \<Rightarrow> b)" for i and a b :: "response + string \<times> string"
    using selectById_ids [OF assms, of i] by (auto split: option.splits)
  show ?thesis
    unfolding chooseId_def g s ..
qed

lemma add_ids:
  assumes "map row_id d1 = map row_id d2"
  shows "fst (add e ent body now d1) = fst (add e ent body now d2)"
proof -
  have "fst (insertAndReply i u now d1) = fst (insertAndReply i u now d2)" for i u
    using selectById_ids [OF assms, of i]
    by (auto simp add: insertAndReply_def insertRow_def split: option.splits)
  then show ?thesis
    by (simp add: add_def chooseId_ids [OF assms] split: sum.splits prod.splits)
qed

lemma lengthArg_range: "lengthArg a = Some len \<Longrightarrow> 1 \<le> len \<and> len \<le> 20"
  by (auto simp add: lengthArg_def split: if_splits)

lemma parseLengthArgs_range:
  "parseLengthArgs cur as = Some n \<Longrightarrow> 1 \<le> cur \<and> cur \<le> 20 \<Longrightarrow> 1 \<le> n \<and> n \<le> 20"
proof (induction as arbitrary: cur)
  case Nil
  then show ?case by simp
next
  case (Cons a as)
  then obtain len where l: "lengthArg a = Some len" and p: "parseLengthArgs len as = Some n"
    by (auto split: option.splits)
  from Cons.IH [OF p lengthArg_range [OF l]] show ?case .
qed

lemma configuredLength_range: "configuredLength args = Some n \<Longrightarrow> 1 \<le> n \<and> n \<le> 20"
  unfolding configuredLength_def by (erule parseLengthArgs_range) simp

lemma eq_char_code: "(c = CHR ''='') = (of_char c = (61::nat))"
proof
  assume "c = CHR ''=''" then show "of_char c = (61::nat)" by simp
next
  assume "of_char c = (61::nat)"
  then have "of_char c = (of_char (CHR ''='') :: nat)" by simp
  then show "c = CHR ''=''" by (simp only: of_char_eq_iff)
qed

lemma toLowerCaseChar_eq_pad: "(toLowerCaseChar c = CHR ''='') = (c = CHR ''='')"
  by (auto simp add: eq_char_code toLowerCaseChar_def Let_def)

lemma stripPadding_toLowerCase: "stripPadding (toLowerCase s) = toLowerCase (stripPadding s)"
  unfolding stripPadding_def toLowerCase_def
  by (induction s) (simp_all add: toLowerCaseChar_eq_pad)





lemma base32_not_pad: "isBase32Char c \<Longrightarrow> c \<noteq> CHR ''=''"
  by (auto simp add: isBase32Char_def)

lemma candidateId_length:
  assumes "\<forall>s. maxBase32Length e \<le> length (stripPadding (base32_encode e (md5_hex e s)))"
  shows "length (candidateId e ent u k) = maxBase32Length e"
proof -
  have "length (stripPadding (toLowerCase x)) = length (stripPadding x)" for x
    by (simp add: stripPadding_toLowerCase) (simp add: toLowerCase_def)
  with assms show ?thesis by (simp add: candidateId_def Let_def)
qed



lemma generateBase32Id_candidate:
  "generateBase32Id e ent u d = Inr i \<Longrightarrow> \<exists>k<maxAttempts. i = candidateId e ent u k"
proof -
  assume g: "generateBase32Id e ent u d = Inr i"
  obtain n res where l: "generateLoop e ent u d 0 = (n, res)" by (cases "generateLoop e ent u d 0")
  with g have "generateLoop e ent u d 0 = (n, Inr i)" by (simp add: generateBase32Id_def)
  from generateLoop_result [OF this] show ?thesis by blast
qed

lemma chooseId_generated:
  "\<not> truthy (body_key body) \<Longrightarrow> chooseId e ent body d = Inr (i, u) \<Longrightarrow>
     generateBase32Id e ent u d = Inr i"
  by (auto simp add: chooseId_def split: option.splits if_splits sum.splits)














lemma generateLoop_retries:
  assumes "k < maxAttempts" and "a \<le> k"
    and "\<forall>j. a \<le> j \<and> j < k \<longrightarrow> selectById (candidateId e ent u j) d \<noteq> None"
    and "selectById (candidateId e ent u k) d = None"
  shows "generateLoop e ent u d a = (k, Inr (candidateId e ent u k))"
  using assms
proof (induction e ent u d a rule: generateLoop.induct)
  case (1 e ent u d attempts)
  from "1.prems" have lt: "attempts < maxAttempts" by simp
  show ?case
  proof (cases "attempts = k")
    case True
    from "1.prems"(4) lt have "generateLoop e ent u d k = (k, Inr (candidateId e ent u k))"
      unfolding True by (subst generateLoop.simps) simp
    then show ?thesis unfolding True .
  next
    case False
    with "1.prems" have less: "attempts < k" by simp
    with "1.prems" obtain r where r: "selectById (candidateId e ent u attempts) d = Some r"
      by fastforce
    have "generateLoop e ent u d (attempts + 1) = (k, Inr (candidateId e ent u k))"
    proof (rule "1.IH" [OF lt r])
      show "k < maxAttempts" by (rule "1.prems"(1))
      show "attempts + 1 \<le> k" using less by simp
      show "\<forall>j. attempts + 1 \<le> j \<and> j < k \<longrightarrow> selectById (candidateId e ent u j) d \<noteq> None"
        using "1.prems"(3) by simp
      show "selectById (candidateId e ent u k) d = None" by (rule "1.prems"(4))
    qed
    with lt r show ?thesis by (simp add: generateLoop.simps [of e ent u d attempts])
  qed
qed

section \<open>The claims\<close>




text \<open>
  C2. As stated (an insert-time duplicate rejection of a generated id is taken as a
  collision and the allocation is retried) the claim fails: the checks of a request
  without key pass on the empty table and choose \<open>q3qq267\<close>; another request inserts
  that id first; the \<open>INSERT\<close> of the first request is rejected and the request is
  answered with status 500, \<open>Database error\<close>.
\<close>

theorem insert_race_counterexample:
  "chooseId (sampleEnv 7) sampleEntropy \<lparr>body_url = Some ''http://a.io'', body_key = JUndefined\<rparr> []
     = Inr (''q3qq267'', ''http://a.io'')
   \<and> insertAndReply ''q3qq267'' ''http://a.io'' 2 [sampleRow ''q3qq267'' ''http://b.io'']
     = (Failure 500 DatabaseError, [sampleRow ''q3qq267'' ''http://b.io''])
   \<and> addInterleaved (sampleEnv 7) sampleEntropy
        \<lparr>body_url = Some ''http://a.io'', body_key = JUndefined\<rparr> 2
        [] [sampleRow ''q3qq267'' ''http://b.io'']
     = (Failure 500 DatabaseError, [sampleRow ''q3qq267'' ''http://b.io''])"
  by code_simp

text \<open>
  C2, amended. In a request without custom key, a candidate that the existence check
  finds in the table is retried: after \<open>k\<close> candidates found there (\<open>k\<close> below 10), the
  next candidate, when it is not in the table, is the id chosen. When the \<open>INSERT\<close> of
  the chosen id is rejected because a row with that id exists by then, the request is
  not retried, whatever other candidates are free: it is answered with status 500 and
  \<open>Database error\<close>, and the table is left as it was. When no such row exists by
  then, the row is inserted.
\<close>

theorem insert_rejection_terminal:
  assumes "\<not> truthy (body_key body)"
    and "body_url body = Some u" and "u \<noteq> []" and "url_parses e u"
    and "k < maxAttempts"
    and "\<forall>j<k. selectById (candidateId e ent u j) d \<noteq> None"
    and "selectById (candidateId e ent u k) d = None"
  shows "generateBase32Id e ent u d = Inr (candidateId e ent u k) \<and>
         chooseId e ent body d = Inr (candidateId e ent u k, u) \<and>
         (selectById (candidateId e ent u k) d' \<noteq> None \<longrightarrow>
            addInterleaved e ent body now d d' = (Failure 500 DatabaseError, d')) \<and>
         (selectById (candidateId e ent u k) d' = None \<longrightarrow>
            addInterleaved e ent body now d d' =
              (Created (candidateId e ent u k) u,
               d' @ [\<lparr>row_id = candidateId e ent u k, row_url = u, created = now,
                       visits = 0, last_visit = None\<rparr>]))"
proof -
  from assms(5,6,7) have "generateLoop e ent u d 0 = (k, Inr (candidateId e ent u k))"
    by (intro generateLoop_retries) auto
  then have g: "generateBase32Id e ent u d = Inr (candidateId e ent u k)"
    by (simp add: generateBase32Id_def)
  with assms(1-4) have c: "chooseId e ent body d = Inr (candidateId e ent u k, u)"
    by (simp add: chooseId_def)
  from g c show ?thesis
    by (auto simp add: addInterleaved_def insertAndReply_def insertRow_def)
qed

theorem insert_rejection_terminal_witness:
  "generateBase32Id (sampleEnv 1) sampleEntropy ''http://a.io'' [sampleRow ''q'' ''http://b.io'']
     = Inr ''2''
   \<and> addInterleaved (sampleEnv 1) sampleEntropy
        \<lparr>body_url = Some ''http://a.io'', body_key = JUndefined\<rparr> 9
        [sampleRow ''q'' ''http://b.io'']
        [sampleRow ''q'' ''http://b.io'', sampleRow ''2'' ''http://b.io'']
     = (Failure 500 DatabaseError,
        [sampleRow ''q'' ''http://b.io'', sampleRow ''2'' ''http://b.io''])"
proof -
  let ?body = "\<lparr>body_url = Some ''http://a.io'', body_key = JUndefined\<rparr>"
  let ?d = "[sampleRow ''q'' ''http://b.io'']"
  let ?d' = "[sampleRow ''q'' ''http://b.io'', sampleRow ''2'' ''http://b.io'']"
  let ?c = "candidateId (sampleEnv 1) sampleEntropy ''http://a.io''"
  have key: "\<not> truthy (body_key ?body)" and url: "body_url ?body = Some ''http://a.io''"
    and ne: "''http://a.io'' \<noteq> []" and p: "url_parses (sampleEnv 1) ''http://a.io''"
    and k: "(2::nat) < maxAttempts"
    by (simp_all add: sampleEnv_def sampleParses_def maxAttempts_def)
  have c2: "?c 2 = ''2''" by code_simp
  have "list_all (\<lambda>j. selectById (?c j) ?d \<noteq> None) [0..<2]" by code_simp
  then have taken: "\<forall>j<2. selectById (?c j) ?d \<noteq> None" by (simp add: list_all_iff)
  have free: "selectById (?c 2) ?d = None" by code_simp
  have raced: "selectById (?c 2) ?d' \<noteq> None" by code_simp
  from insert_rejection_terminal [OF key url ne p k taken free, of ?d' 9] raced
  show ?thesis unfolding c2 by blast
qed

text \<open>
  C3. As stated (every rule failure of a supplied key, the empty string included, gives
  the key format error) the claim fails: with the key \<open>""\<close> the request is answered
  with a generated id and a new row.
\<close>

theorem empty_key_counterexample:
  "add (sampleEnv 7) sampleEntropy \<lparr>body_url = Some ''http://a.io'', body_key = JStr ''''\<rparr> 5 []
     = (Created ''q3qq267'' ''http://a.io'',
        [\<lparr>row_id = ''q3qq267'', row_url = ''http://a.io'', created = 5,
          visits = 0, last_visit = None\<rparr>])"
  by code_simp

text \<open>
  C3, amended. For a request whose url passes the url checks and whose key is truthy,
  the checks run in this order, the first failure decides, and no failure depends on
  the table or changes it: a key that is not a string, or longer than
  \<open>maxBase32Length\<close>, gives status 400 with the length message; otherwise a key with a
  character outside \<open>[A-Z2-7]\<close> (either case) gives status 400 with the base32 message;
  otherwise the lowercased key is looked up (status 409 when it exists) and inserted.
\<close>

theorem custom_key_validation:
  assumes "body_url body = Some u" and "u \<noteq> []" and "url_parses e u"
    and "truthy (body_key body)"
  shows "((\<forall>k. body_key body \<noteq> JStr k) \<longrightarrow>
            add e ent body now d = (Failure 400 KeyLengthInvalid, d)) \<and>
         (\<forall>k. body_key body = JStr k \<longrightarrow>
            add e ent body now d =
              (if maxBase32Length e < length k then (Failure 400 KeyLengthInvalid, d)
               else if \<not> list_all isBase32Char k then (Failure 400 KeyNotBase32, d)
               else if selectById (toLowerCase k) d \<noteq> None then (Failure 409 KeyExists, d)
               else (Created (toLowerCase k) u,
                     d @ [\<lparr>row_id = toLowerCase k, row_url = u, created = now,
                            visits = 0, last_visit = None\<rparr>])))"
proof (intro conjI allI impI)
  assume "\<forall>k. body_key body \<noteq> JStr k"
  with assms show "add e ent body now d = (Failure 400 KeyLengthInvalid, d)"
    by (cases "body_key body") (simp_all add: add_def chooseId_def)
next
  fix k assume k: "body_key body = JStr k"
  with assms(4) have "k \<noteq> []" by simp
  with assms k show "add e ent body now d =
              (if maxBase32Length e < length k then (Failure 400 KeyLengthInvalid, d)
               else if \<not> list_all isBase32Char k then (Failure 400 KeyNotBase32, d)
               else if selectById (toLowerCase k) d \<noteq> None then (Failure 409 KeyExists, d)
               else (Created (toLowerCase k) u,
                     d @ [\<lparr>row_id = toLowerCase k, row_url = u, created = now,
                            visits = 0, last_visit = None\<rparr>]))"
    by (auto simp add: add_def chooseId_def matchesBase32_def insertAndReply_def insertRow_def
             split: option.splits)
qed

theorem custom_key_validation_witness:
  "add (sampleEnv 7) sampleEntropy \<lparr>body_url = Some ''http://a.io'', body_key = JStr ''MYKEY23''\<rparr> 5 []
     = (Created ''mykey23'' ''http://a.io'',
        [\<lparr>row_id = ''mykey23'', row_url = ''http://a.io'', created = 5,
          visits = 0, last_visit = None\<rparr>])
   \<and> add (sampleEnv 7) sampleEntropy \<lparr>body_url = Some ''http://a.io'', body_key = JStr ''MYKE!''\<rparr> 5 []
     = (Failure 400 KeyNotBase32, [])
   \<and> add (sampleEnv 7) sampleEntropy \<lparr>body_url = Some ''http://a.io'', body_key = JStr ''MYKEY234!''\<rparr> 5 []
     = (Failure 400 KeyLengthInvalid, [])
   \<and> add (sampleEnv 7) sampleEntropy \<lparr>body_url = Some ''http://a.io'', body_key = JNum 5\<rparr> 5 []
     = (Failure 400 KeyLengthInvalid, [])"
proof -
  have p: "url_parses (sampleEnv 7) ''http://a.io''" and n: "''http://a.io'' \<noteq> []"
    and m: "maxBase32Length (sampleEnv 7) = 7"
    by (simp_all add: sampleEnv_def sampleParses_def)
  have c1: "list_all isBase32Char ''MYKEY23''" and c2: "\<not> list_all isBase32Char ''MYKE!''"
    and l1: "toLowerCase ''MYKEY23'' = ''mykey23''"
    by code_simp+
  have s: "selectById ''mykey23'' [] = None" by (simp add: selectById_def)
  from custom_key_validation [of "\<lparr>body_url = Some ''http://a.io'', body_key = JStr ''MYKEY23''\<rparr>"
      "''http://a.io''" "sampleEnv 7" sampleEntropy 5 "[]"] p n m c1 l1 s
  have a1: "add (sampleEnv 7) sampleEntropy \<lparr>body_url = Some ''http://a.io'', body_key = JStr ''MYKEY23''\<rparr> 5 []
     = (Created ''mykey23'' ''http://a.io'',
        [\<lparr>row_id = ''mykey23'', row_url = ''http://a.io'', created = 5,
          visits = 0, last_visit = None\<rparr>])"
    by simp
  from custom_key_validation [of "\<lparr>body_url = Some ''http://a.io'', body_key = JStr ''MYKE!''\<rparr>"
      "''http://a.io''" "sampleEnv 7" sampleEntropy 5 "[]"] p n m c2
  have a2: "add (sampleEnv 7) sampleEntropy \<lparr>body_url = Some ''http://a.io'', body_key = JStr ''MYKE!''\<rparr> 5 []
     = (Failure 400 KeyNotBase32, [])"
    by simp
  from custom_key_validation [of "\<lparr>body_url = Some ''http://a.io'', body_key = JStr ''MYKEY234!''\<rparr>"
      "''http://a.io''" "sampleEnv 7" sampleEntropy 5 "[]"] p n m
  have a3: "add (sampleEnv 7) sampleEntropy \<lparr>body_url = Some ''http://a.io'', body_key = JStr ''MYKEY234!''\<rparr> 5 []
     = (Failure 400 KeyLengthInvalid, [])"
    by simp
  from custom_key_validation [of "\<lparr>body_url = Some ''http://a.io'', body_key = JNum 5\<rparr>"
      "''http://a.io''" "sampleEnv 7" sampleEntropy 5 "[]"] p n
  have a4: "add (sampleEnv 7) sampleEntropy \<lparr>body_url = Some ''http://a.io'', body_key = JNum 5\<rparr> 5 []
     = (Failure 400 KeyLengthInvalid, [])"
    by simp
  from a1 a2 a3 a4 show ?thesis by blast
qed

text \<open>
  C4. With a configured length (7, or the last numeric argument, each in 1..20) and an
  encoded digest that covers it, every successful add without a custom key returns an
  id of exactly \<open>maxBase32Length\<close> characters; so its length is at least 1 and at most
  the configured maximum, which is at most 20.
\<close>

theorem generated_id_length:
  assumes "configuredLength args = Some (maxBase32Length e)"
    and "encodedDigestCovers e"
    and "\<not> truthy (body_key body)"
    and "add e ent body now d = (Created i u, d')"
  shows "length i = maxBase32Length e \<and> 1 \<le> length i \<and> length i \<le> 20"
proof -
  from add_Created [OF assms(4)] have "chooseId e ent body d = Inr (i, u)" by simp
  from chooseId_generated [OF assms(3) this] generateBase32Id_candidate
  obtain k where "i = candidateId e ent u k" by blast
  then have "length i = maxBase32Length e"
    using candidateId_length [OF assms(2) [unfolded encodedDigestCovers_def]] by simp
  with configuredLength_range [OF assms(1)] show ?thesis by simp
qed

theorem generated_id_length_witness:
  "length ''q3qq267'' = maxBase32Length (sampleEnv 7) \<and> 1 \<le> length ''q3qq267''
   \<and> length ''q3qq267'' \<le> 20"
proof -
  let ?body = "\<lparr>body_url = Some ''http://a.io'', body_key = JUndefined\<rparr>"
  have c: "configuredLength [7] = Some (maxBase32Length (sampleEnv 7))"
    by (simp add: configuredLength_def lengthArg_def sampleEnv_def)
  have "length (stripPadding (sampleEncode h)) = length h" for h
    by (induction h) (auto simp add: stripPadding_def sampleEncode_def dest: base32_not_pad)
  then have l: "encodedDigestCovers (sampleEnv 7)"
    by (auto simp add: encodedDigestCovers_def sampleEnv_def sampleDigest_def min_def)
  have k: "\<not> truthy (body_key ?body)" by simp
  have a: "add (sampleEnv 7) sampleEntropy ?body 5 []
      = (Created ''q3qq267'' ''http://a.io'',
         [\<lparr>row_id = ''q3qq267'', row_url = ''http://a.io'', created = 5,
           visits = 0, last_visit = None\<rparr>])"
    by code_simp
  from generated_id_length [OF c l k a] show ?thesis .
qed

text \<open>
  C5. The allocation loop is left after at most \<open>maxAttempts\<close> = 10 iterations: it
  returns an id at an attempt index below 10 or throws with the index at 10. When all
  ten candidates are ids of existing rows, \<open>generateBase32Id\<close> throws, and \<open>/api/add\<close>
  without a custom key answers with status 500 and \<open>Unable to generate unique ID\<close>,
  the table unchanged.
\<close>

theorem allocation_bounded:
  "maxAttempts = 10 \<and>
   (case generateLoop e ent u d 0 of
      (n, Inr i) \<Rightarrow> n < maxAttempts
    | (n, Inl x) \<Rightarrow> n = maxAttempts) \<and>
   ((\<forall>k<maxAttempts. selectById (candidateId e ent u k) d \<noteq> None) \<longrightarrow>
      generateBase32Id e ent u d = Inl MaxAttemptsError \<and>
      (u \<noteq> [] \<and> url_parses e u \<and> \<not> truthy key \<longrightarrow>
         add e ent \<lparr>body_url = Some u, body_key = key\<rparr> now d
           = (Failure 500 UnableToGenerateId, d)))"
proof (intro conjI impI)
  show "maxAttempts = 10" by (simp add: maxAttempts_def)
next
  obtain n res where g: "generateLoop e ent u d 0 = (n, res)" by (cases "generateLoop e ent u d 0")
  show "case generateLoop e ent u d 0 of (n, Inr i) \<Rightarrow> n < maxAttempts | (n, Inl x) \<Rightarrow> n = maxAttempts"
  proof (cases res)
    case (Inl x)
    with g generateLoop_error [of e ent u d 0 n x] show ?thesis by simp
  next
    case (Inr i)
    with g generateLoop_result [of e ent u d 0 n i] show ?thesis by simp
  qed
next
  assume all: "\<forall>k<maxAttempts. selectById (candidateId e ent u k) d \<noteq> None"
  then have g: "generateLoop e ent u d 0 = (maxAttempts, Inl MaxAttemptsError)"
    by (intro generateLoop_exhausted) auto
  then show gen: "generateBase32Id e ent u d = Inl MaxAttemptsError"
    by (simp add: generateBase32Id_def)
  assume "u \<noteq> [] \<and> url_parses e u \<and> \<not> truthy key"
  with gen show "add e ent \<lparr>body_url = Some u, body_key = key\<rparr> now d
           = (Failure 500 UnableToGenerateId, d)"
    by (simp add: add_def chooseId_def)
qed

theorem allocation_bounded_witness:
  "add (sampleEnv 1) sampleEntropy \<lparr>body_url = Some ''http://a.io'', body_key = JUndefined\<rparr> 9 fullTable
     = (Failure 500 UnableToGenerateId, fullTable)
   \<and> generateLoop (sampleEnv 1) sampleEntropy ''http://a.io'' fullTable 0 = (10, Inl MaxAttemptsError)"
proof -
  have "list_all (\<lambda>k. selectById (candidateId (sampleEnv 1) sampleEntropy ''http://a.io'' k) fullTable \<noteq> None) [0..<10]"
    by code_simp
  then have all: "\<forall>k<maxAttempts. selectById (candidateId (sampleEnv 1) sampleEntropy ''http://a.io'' k) fullTable \<noteq> None"
    by (simp add: list_all_iff maxAttempts_def)
  have u: "''http://a.io'' \<noteq> [] \<and> url_parses (sampleEnv 1) ''http://a.io'' \<and> \<not> truthy JUndefined"
    by (simp add: sampleEnv_def sampleParses_def)
  from allocation_bounded [of "sampleEnv 1" sampleEntropy "''http://a.io''" fullTable JUndefined 9] all u
  show ?thesis
    by (simp add: generateBase32Id_def split: prod.splits sum.splits)
qed


text \<open>
  C6. A row is inserted with \<open>visits\<close> 0 and no \<open>last_visit\<close>; over any request, a row
  that is in the table before and after has a \<open>visits\<close> that did not decrease; resolving
  an id that exists redirects to its url, adds exactly 1 to its \<open>visits\<close>, sets its
  \<open>last_visit\<close> to the clock and leaves the rows of other ids and the number of rows
  as they were; resolving an id that does not exist answers 404 and leaves the table
  as it was.
\<close>

theorem visit_counter:
  "(add e ent body now d = (Created i u, d') \<longrightarrow>
      selectById i d' =
        Some \<lparr>row_id = i, row_url = u, created = now, visits = 0, last_visit = None\<rparr>) \<and>
   (handle e rq d = (resp, d2) \<and> selectById j d = Some r1 \<and> selectById j d2 = Some r2 \<longrightarrow>
      visits r1 \<le> visits r2) \<and>
   (selectById (toLowerCase raw) d = Some r \<longrightarrow>
      resolve raw now d = (Redirect (row_url r), updateVisit (toLowerCase raw) now d) \<and>
      selectById (toLowerCase raw) (updateVisit (toLowerCase raw) now d) =
        Some (r\<lparr>visits := visits r + 1, last_visit := Some now\<rparr>) \<and>
      length (updateVisit (toLowerCase raw) now d) = length d \<and>
      (\<forall>k. k \<noteq> toLowerCase raw \<longrightarrow>
         selectById k (updateVisit (toLowerCase raw) now d) = selectById k d)) \<and>
   (selectById (toLowerCase raw) d = None \<longrightarrow>
      resolve raw now d = (Failure 404 RedirectNotFound, d))"
proof (intro conjI impI allI)
  assume "add e ent body now d = (Created i u, d')"
  from add_Created [OF this]
  show "selectById i d' =
        Some \<lparr>row_id = i, row_url = u, created = now, visits = 0, last_visit = None\<rparr>"
    by (simp add: selectById_append) (simp add: selectById_def)
next
  assume "handle e rq d = (resp, d2) \<and> selectById j d = Some r1 \<and> selectById j d2 = Some r2"
  then show "visits r1 \<le> visits r2" using handle_visits_mono by blast
next
  assume r: "selectById (toLowerCase raw) d = Some r"
  then show "resolve raw now d = (Redirect (row_url r), updateVisit (toLowerCase raw) now d)"
    by (simp add: resolve_def)
  from r selectById_Some [OF r]
  show "selectById (toLowerCase raw) (updateVisit (toLowerCase raw) now d) =
        Some (r\<lparr>visits := visits r + 1, last_visit := Some now\<rparr>)"
    by (simp add: selectById_updateVisit)
  show "length (updateVisit (toLowerCase raw) now d) = length d"
    by (simp add: updateVisit_def)
  fix k assume "k \<noteq> toLowerCase raw"
  then show "selectById k (updateVisit (toLowerCase raw) now d) = selectById k d"
    by (cases "selectById k d") (auto simp add: selectById_updateVisit dest: selectById_Some)
next
  assume "selectById (toLowerCase raw) d = None"
  then show "resolve raw now d = (Failure 404 RedirectNotFound, d)"
    by (simp add: resolve_def)
qed

theorem visit_counter_witness:
  "resolve ''MYKEY23'' 9 [sampleRow ''mykey23'' ''http://a.io'']
     = (Redirect ''http://a.io'',
        [\<lparr>row_id = ''mykey23'', row_url = ''http://a.io'', created = 0,
          visits = 1, last_visit = Some 9\<rparr>])
   \<and> resolve ''abc'' 9 [sampleRow ''mykey23'' ''http://a.io'']
     = (Failure 404 RedirectNotFound, [sampleRow ''mykey23'' ''http://a.io''])
   \<and> selectById ''mykey23''
        (snd (add (sampleEnv 7) sampleEntropy
               \<lparr>body_url = Some ''http://a.io'', body_key = JStr ''MYKEY23''\<rparr> 9 []))
     = Some \<lparr>row_id = ''mykey23'', row_url = ''http://a.io'', created = 9,
             visits = 0, last_visit = None\<rparr>
   \<and> visits (sampleRow ''mykey23'' ''http://a.io'')
     \<le> visits \<lparr>row_id = ''mykey23'', row_url = ''http://a.io'', created = 0,
                 visits = 1, last_visit = Some 9\<rparr>"
proof -
  let ?d = "[sampleRow ''mykey23'' ''http://a.io'']"
  let ?r1 = "\<lparr>row_id = ''mykey23'', row_url = ''http://a.io'', created = 0,
          visits = 1, last_visit = Some 9\<rparr>"
  let ?body = "\<lparr>body_url = Some ''http://a.io'', body_key = JStr ''MYKEY23''\<rparr>"
  let ?d' = "[\<lparr>row_id = ''mykey23'', row_url = ''http://a.io'', created = 9,
                visits = 0, last_visit = None\<rparr>]"
  have l1: "toLowerCase ''MYKEY23'' = ''mykey23''" and l2: "toLowerCase ''abc'' = ''abc''"
    by code_simp+
  have s1: "selectById (toLowerCase ''MYKEY23'') ?d = Some (sampleRow ''mykey23'' ''http://a.io'')"
    by (simp add: l1 selectById_def sampleRow_def)
  have s2: "selectById (toLowerCase ''abc'') ?d = None"
    by (simp add: l2 selectById_def sampleRow_def)
  have a: "add (sampleEnv 7) sampleEntropy ?body 9 [] = (Created ''mykey23'' ''http://a.io'', ?d')"
    by code_simp
  have u: "updateVisit ''mykey23'' 9 ?d = [?r1]"
    by code_simp
  have h: "handle (sampleEnv 7) (Resolve ''MYKEY23'' 9) ?d = (Redirect ''http://a.io'', [?r1])"
    by code_simp
  have s3: "selectById ''mykey23'' ?d = Some (sampleRow ''mykey23'' ''http://a.io'')"
    and s4: "selectById ''mykey23'' [?r1] = Some ?r1"
    by (simp_all add: selectById_def sampleRow_def)
  note w1 = visit_counter [where e = "sampleEnv 7" and ent = sampleEntropy and body = ?body
      and now = 9 and d = "[]" and i = "''mykey23''" and u = "''http://a.io''" and d' = ?d']
  note w2 = visit_counter [where e = "sampleEnv 7" and rq = "Resolve ''MYKEY23'' 9" and d = ?d
      and resp = "Redirect ''http://a.io''" and ?d2.0 = "[?r1]" and j = "''mykey23''"
      and ?r1.0 = "sampleRow ''mykey23'' ''http://a.io''" and ?r2.0 = ?r1
      and raw = "''MYKEY23''" and r = "sampleRow ''mykey23'' ''http://a.io''" and now = 9]
  note w3 = visit_counter [where d = ?d and raw = "''abc''" and now = 9]
  from w1 a have c1: "selectById ''mykey23'' (snd (add (sampleEnv 7) sampleEntropy ?body 9 []))
      = Some \<lparr>row_id = ''mykey23'', row_url = ''http://a.io'', created = 9,
              visits = 0, last_visit = None\<rparr>"
    by simp
  from w2 h s3 s4 have c2: "visits (sampleRow ''mykey23'' ''http://a.io'') \<le> visits ?r1"
    by blast
  from w2 s1 have "resolve ''MYKEY23'' 9 ?d
      = (Redirect (row_url (sampleRow ''mykey23'' ''http://a.io'')),
         updateVisit (toLowerCase ''MYKEY23'') 9 ?d)"
    by blast
  then have c3: "resolve ''MYKEY23'' 9 ?d = (Redirect ''http://a.io'', [?r1])"
    unfolding l1 u by (simp add: sampleRow_def)
  from w3 s2 have c4: "resolve ''abc'' 9 ?d = (Failure 404 RedirectNotFound, ?d)"
    by blast
  from c1 c2 c3 c4 show ?thesis by blast
qed

text \<open>
  C7. When \<open>/api/add\<close> accepts a custom key, the stored id is the lowercased key, and
  resolving any string that lowercases to the same id (any case variant of the key)
  finds that row and redirects to its url.
\<close>

theorem case_insensitive_lookup:
  assumes "k \<noteq> []"
    and "add e ent \<lparr>body_url = Some u, body_key = JStr k\<rparr> now d = (Created i u', d')"
    and "toLowerCase k' = toLowerCase k"
  shows "i = toLowerCase k \<and> u' = u \<and>
         selectById (toLowerCase k') d' =
           Some \<lparr>row_id = toLowerCase k, row_url = u, created = now, visits = 0, last_visit = None\<rparr> \<and>
         fst (resolve k' now' d') = Redirect u \<and>
         fst (resolve k now' d') = Redirect u"
proof -
  from add_Created [OF assms(2)]
  have c: "chooseId e ent \<lparr>body_url = Some u, body_key = JStr k\<rparr> d = Inr (i, u')"
    and n: "selectById i d = None"
    and d': "d' = d @ [\<lparr>row_id = i, row_url = u', created = now, visits = 0, last_visit = None\<rparr>]"
    by simp_all
  from chooseId_url [OF c] have u: "u' = u" by simp
  from c assms(1) have i: "i = toLowerCase k"
    by (auto simp add: chooseId_def split: if_splits option.splits)
  have s: "selectById (toLowerCase k) d' =
      Some \<lparr>row_id = toLowerCase k, row_url = u, created = now, visits = 0, last_visit = None\<rparr>"
    using n unfolding d' i u by (simp add: selectById_append) (simp add: selectById_def)
  with assms(3) i u show ?thesis by (simp add: resolve_def)
qed

theorem case_insensitive_lookup_witness:
  "fst (resolve ''mykey23'' 9
     [\<lparr>row_id = ''mykey23'', row_url = ''http://a.io'', created = 5,
       visits = 0, last_visit = None\<rparr>]) = Redirect ''http://a.io''
   \<and> fst (resolve ''MYKEY23'' 9
     [\<lparr>row_id = ''mykey23'', row_url = ''http://a.io'', created = 5,
       visits = 0, last_visit = None\<rparr>]) = Redirect ''http://a.io''"
proof -
  have n: "''MYKEY23'' \<noteq> []" by simp
  have a: "add (sampleEnv 7) sampleEntropy
             \<lparr>body_url = Some ''http://a.io'', body_key = JStr ''MYKEY23''\<rparr> 5 []
           = (Created ''mykey23'' ''http://a.io'',
              [\<lparr>row_id = ''mykey23'', row_url = ''http://a.io'', created = 5,
                visits = 0, last_visit = None\<rparr>])"
    by code_simp
  have l: "toLowerCase ''mykey23'' = toLowerCase ''MYKEY23''" by code_simp
  from case_insensitive_lookup [OF n a l, of 9] show ?thesis by blast
qed

text \<open>
  C8. As stated (after a successful add of a url, check of that url reports the id
  the add returned) the claim fails when a row with that url is in the table already:
  the add inserts a second row with a new id, and check reports the first row.
\<close>

theorem check_after_add_counterexample:
  "add (sampleEnv 7) sampleEntropy \<lparr>body_url = Some ''http://a.io'', body_key = JUndefined\<rparr> 5
       [sampleRow ''aaaaaaa'' ''http://a.io'']
     = (Created ''q3qq267'' ''http://a.io'',
        [sampleRow ''aaaaaaa'' ''http://a.io'',
         \<lparr>row_id = ''q3qq267'', row_url = ''http://a.io'', created = 5, visits = 0, last_visit = None\<rparr>])
   \<and> check (sampleEnv 7) (Some ''http://a.io'')
        [sampleRow ''aaaaaaa'' ''http://a.io'',
         \<lparr>row_id = ''q3qq267'', row_url = ''http://a.io'', created = 5, visits = 0, last_visit = None\<rparr>]
     = Exists \<lparr>row_id = ''aaaaaaa'', row_url = ''http://a.io'', created = 0, visits = 0, last_visit = None\<rparr>"
  by code_simp

text \<open>
  C8, amended. When no row with that url is in the table before the add, a successful
  add of the url followed by check of the same url reports that a row exists, with the
  id and the url the add returned.
\<close>

theorem check_after_add:
  assumes "add e ent \<lparr>body_url = Some u, body_key = k\<rparr> now d = (Created i u', d')"
    and "selectByUrl u d = None"
  shows "u' = u \<and>
         check e (Some u) d' =
           Exists \<lparr>row_id = i, row_url = u', created = now, visits = 0, last_visit = None\<rparr>"
proof -
  from add_Created [OF assms(1)]
  have c: "chooseId e ent \<lparr>body_url = Some u, body_key = k\<rparr> d = Inr (i, u')"
    and d': "d' = d @ [\<lparr>row_id = i, row_url = u', created = now, visits = 0, last_visit = None\<rparr>]"
    by simp_all
  from chooseId_url [OF c] have u: "u' = u" "u \<noteq> []" "url_parses e u" by simp_all
  from assms(2) have "selectByUrl u d' =
      Some \<lparr>row_id = i, row_url = u', created = now, visits = 0, last_visit = None\<rparr>"
    unfolding d' u by (simp add: selectByUrl_append) (simp add: selectByUrl_def)
  with u show ?thesis by (simp add: check_def)
qed

theorem check_after_add_witness:
  "check (sampleEnv 7) (Some ''http://a.io'')
     [sampleRow ''aaaaaaa'' ''http://b.io'',
      \<lparr>row_id = ''q3qq267'', row_url = ''http://a.io'', created = 5, visits = 0, last_visit = None\<rparr>]
   = Exists \<lparr>row_id = ''q3qq267'', row_url = ''http://a.io'', created = 5,
             visits = 0, last_visit = None\<rparr>"
proof -
  have a: "add (sampleEnv 7) sampleEntropy \<lparr>body_url = Some ''http://a.io'', body_key = JUndefined\<rparr> 5
             [sampleRow ''aaaaaaa'' ''http://b.io'']
           = (Created ''q3qq267'' ''http://a.io'',
              [sampleRow ''aaaaaaa'' ''http://b.io'',
               \<lparr>row_id = ''q3qq267'', row_url = ''http://a.io'', created = 5,
                 visits = 0, last_visit = None\<rparr>])"
    by code_simp
  have s: "selectByUrl ''http://a.io'' [sampleRow ''aaaaaaa'' ''http://b.io''] = None"
    by (simp add: selectByUrl_def sampleRow_def)
  from check_after_add [OF a s] show ?thesis by simp
qed

text \<open>
  C9. A request whose key is falsy (the empty string, \<open>undefined\<close>, \<open>null\<close>, \<open>false\<close>,
  \<open>0\<close>) is handled exactly as the request without key: none of the key format
  failures is answered, and once the url checks pass the id comes from
  \<open>generateBase32Id\<close>.
\<close>

theorem falsy_key_generates:
  assumes "\<not> truthy k"
  shows "add e ent \<lparr>body_url = q, body_key = k\<rparr> now d
           = add e ent \<lparr>body_url = q, body_key = JUndefined\<rparr> now d \<and>
         fst (add e ent \<lparr>body_url = q, body_key = k\<rparr> now d) \<noteq> Failure 400 KeyLengthInvalid \<and>
         fst (add e ent \<lparr>body_url = q, body_key = k\<rparr> now d) \<noteq> Failure 400 KeyNotBase32 \<and>
         (\<forall>u. q = Some u \<and> u \<noteq> [] \<and> url_parses e u \<longrightarrow>
            chooseId e ent \<lparr>body_url = q, body_key = k\<rparr> d =
              (case generateBase32Id e ent u d of
                 Inl err \<Rightarrow> Inl (Failure 500 UnableToGenerateId)
               | Inr i \<Rightarrow> Inr (i, u)))"
  using assms
  by (auto simp add: add_def chooseId_def insertAndReply_def split: option.splits sum.splits)

theorem falsy_key_generates_witness:
  "add (sampleEnv 7) sampleEntropy \<lparr>body_url = Some ''http://a.io'', body_key = JStr ''''\<rparr> 5 []
     = add (sampleEnv 7) sampleEntropy \<lparr>body_url = Some ''http://a.io'', body_key = JUndefined\<rparr> 5 []
   \<and> chooseId (sampleEnv 7) sampleEntropy \<lparr>body_url = Some ''http://a.io'', body_key = JStr ''''\<rparr> []
     = Inr (''q3qq267'', ''http://a.io'')"
proof -
  have k: "\<not> truthy (JStr '''')" by simp
  have p: "url_parses (sampleEnv 7) ''http://a.io''" and n: "''http://a.io'' \<noteq> []"
    by (simp_all add: sampleEnv_def sampleParses_def)
  have g: "generateBase32Id (sampleEnv 7) sampleEntropy ''http://a.io'' [] = Inr ''q3qq267''"
    by code_simp
  from falsy_key_generates [OF k, of "sampleEnv 7" sampleEntropy "Some ''http://a.io''" 5 "[]"] p n g
  show ?thesis by simp
qed

text \<open>
  C10. \<open>/api/add\<close> does not look at the urls of the rows: two tables with the same ids
  in the same order get the same response. A successful add without a custom key
  appends one row with an id no row had, whether or not rows with the same url exist;
  every such row stays in the table beside the new one, under a different id.
\<close>

theorem add_ignores_destination:
  "(map row_id d1 = map row_id d2 \<longrightarrow>
      fst (add e ent body now d1) = fst (add e ent body now d2)) \<and>
   (\<not> truthy (body_key body) \<and> add e ent body now d = (Created i u, d') \<longrightarrow>
      body_url body = Some u \<and> selectById i d = None \<and>
      d' = d @ [\<lparr>row_id = i, row_url = u, created = now, visits = 0, last_visit = None\<rparr>] \<and>
      (\<forall>r. r \<in> set d \<and> row_url r = u \<longrightarrow> r \<in> set d' \<and> row_id r \<noteq> i))"
proof (intro conjI impI allI)
  assume "map row_id d1 = map row_id d2"
  then show "fst (add e ent body now d1) = fst (add e ent body now d2)" by (rule add_ids)
next
  assume a: "\<not> truthy (body_key body) \<and> add e ent body now d = (Created i u, d')"
  then have c: "chooseId e ent body d = Inr (i, u)" and n: "selectById i d = None"
    and d': "d' = d @ [\<lparr>row_id = i, row_url = u, created = now, visits = 0, last_visit = None\<rparr>]"
    using add_Created by blast+
  from chooseId_url [OF c] show "body_url body = Some u" by simp
  from n show "selectById i d = None" .
  from d' show "d' = d @ [\<lparr>row_id = i, row_url = u, created = now, visits = 0, last_visit = None\<rparr>]" .
  fix r assume "r \<in> set d \<and> row_url r = u"
  with n d' show "r \<in> set d'" "row_id r \<noteq> i" by (auto simp add: selectById_None)
qed

theorem add_ignores_destination_witness:
  "fst (add (sampleEnv 7) sampleEntropy \<lparr>body_url = Some ''http://a.io'', body_key = JUndefined\<rparr> 5
         [sampleRow ''aaaaaaa'' ''http://a.io''])
     = fst (add (sampleEnv 7) sampleEntropy \<lparr>body_url = Some ''http://a.io'', body_key = JUndefined\<rparr> 5
         [sampleRow ''aaaaaaa'' ''http://b.io''])
   \<and> sampleRow ''aaaaaaa'' ''http://a.io'' \<in> set
        [sampleRow ''aaaaaaa'' ''http://a.io'',
         \<lparr>row_id = ''q3qq267'', row_url = ''http://a.io'', created = 5, visits = 0, last_visit = None\<rparr>]
   \<and> row_id (sampleRow ''aaaaaaa'' ''http://a.io'') \<noteq> ''q3qq267''"
proof -
  let ?body = "\<lparr>body_url = Some ''http://a.io'', body_key = JUndefined\<rparr>"
  let ?d = "[sampleRow ''aaaaaaa'' ''http://a.io'']"
  let ?d' = "[sampleRow ''aaaaaaa'' ''http://a.io'',
         \<lparr>row_id = ''q3qq267'', row_url = ''http://a.io'', created = 5, visits = 0, last_visit = None\<rparr>]"
  have m: "map row_id ?d = map row_id [sampleRow ''aaaaaaa'' ''http://b.io'']"
    by (simp add: sampleRow_def)
  have k: "\<not> truthy (body_key ?body)" by simp
  have a: "add (sampleEnv 7) sampleEntropy ?body 5 ?d = (Created ''q3qq267'' ''http://a.io'', ?d')"
    by code_simp
  have r: "sampleRow ''aaaaaaa'' ''http://a.io'' \<in> set ?d \<and> row_url (sampleRow ''aaaaaaa'' ''http://a.io'') = ''http://a.io''"
    by (simp add: sampleRow_def)
  note w = add_ignores_destination [where ?d1.0 = ?d and ?d2.0 = "[sampleRow ''aaaaaaa'' ''http://b.io'']"
      and e = "sampleEnv 7" and ent = sampleEntropy and body = ?body and now = 5 and d = ?d
      and i = "''q3qq267''" and u = "''http://a.io''" and d' = ?d']
  from w m have c1: "fst (add (sampleEnv 7) sampleEntropy ?body 5 ?d)
     = fst (add (sampleEnv 7) sampleEntropy ?body 5 [sampleRow ''aaaaaaa'' ''http://b.io''])"
    by blast
  from w k a r have c2: "sampleRow ''aaaaaaa'' ''http://a.io'' \<in> set ?d'
      \<and> row_id (sampleRow ''aaaaaaa'' ''http://a.io'') \<noteq> ''q3qq267''"
    by blast
  from c1 c2 show ?thesis by blast
qed

end
